theory Spec2Isabelle
  imports Complex_Main
begin

section \<open>Exceptions\<close>

text \<open>
  The Python exceptions that the modelled functions can meet.  A function that may raise
  returns \<open>error + 'a\<close>, with \<open>Inl\<close> for the exception.
\<close>

datatype error = ValueError | AttributeError | FileNotFoundError | OSError | JSONDecodeError
  | CsvError | UnhandledError

section \<open>The output store: a CSV file\<close>

text \<open>
  A CSV file is the list of its lines, each line the list of its cells; the first line is
  the header.  Quoting, line ends and the decoding of the bytes are the business of the
  \<open>csv\<close> module and of the file object and are not modelled: a file is given as the
  cells that \<open>csv.reader\<close> parses from it.  A path that does not exist is \<open>None\<close>.
\<close>

type_synonym csv_file = "string list list"

text \<open>
  The dictionary that \<open>csv.DictReader\<close> builds for one line: \<open>dict(zip(fieldnames, row))\<close>,
  then the cells beyond the header under the key \<open>None\<close> (here \<open>extras\<close>), or the value
  \<open>None\<close> for the header fields beyond the line.  A later binding of a repeated field
  name overrides an earlier one, so lookups read the list from its end.
\<close>

record dictrow =
  named :: "(string \<times> string option) list"
  extras :: "string list"

definition read_row :: "string list \<Rightarrow> string list \<Rightarrow> dictrow" where
  "read_row fieldnames row =
     \<lparr>named = zip fieldnames (map Some row @ replicate (length fieldnames - length row) None),
      extras = drop (length fieldnames) row\<rparr>"

definition field_size_limit :: nat where
  \<comment> \<open>\<open>csv.field_size_limit()\<close>, which the program never changes\<close>
  "field_size_limit = 131072"

definition within_limit :: "string list \<Rightarrow> bool" where
  \<comment> \<open>\<open>csv.reader\<close> yields the line; a cell longer than the limit makes it raise
      \<open>csv.Error\<close> instead\<close>
  "within_limit row = list_all (\<lambda>cell. length cell \<le> field_size_limit) row"

definition dict_rows :: "csv_file \<Rightarrow> dictrow list" where
  \<comment> \<open>the dicts of a file that can be read: the first line gives the field names; blank
      lines are skipped\<close>
  "dict_rows f =
     (case f of
        [] \<Rightarrow> []
      | fieldnames # lines \<Rightarrow> map (read_row fieldnames) (filter (\<lambda>row. row \<noteq> []) lines))"

definition DictReader :: "csv_file \<Rightarrow> error + dictrow list" where
  \<comment> \<open>the loop \<open>for row in reader\<close> run to its end: the rows it has yielded, or the
      \<open>csv.Error\<close> that a line of the file, the header included, has raised on the way\<close>
  "DictReader f = (if list_all within_limit f then Inr (dict_rows f) else Inl CsvError)"

definition row_get :: "dictrow \<Rightarrow> string \<Rightarrow> string option" where
  \<comment> \<open>\<open>row.get(k)\<close>: \<open>None\<close> for a missing field and for a field bound to \<open>None\<close>\<close>
  "row_get row k = (case map_of (rev (named row)) k of Some (Some v) \<Rightarrow> Some v | _ \<Rightarrow> None)"

definition has_wrong_fields :: "string list \<Rightarrow> dictrow \<Rightarrow> bool" where
  \<comment> \<open>\<open>rowdict.keys() - fieldnames\<close> is not empty; the key \<open>None\<close> of the extra cells
      is never a field name\<close>
  "has_wrong_fields fieldnames row =
     (extras row \<noteq> [] \<or> list_ex (\<lambda>k. k \<notin> set fieldnames) (map fst (named row)))"

definition dict_to_list :: "string list \<Rightarrow> dictrow \<Rightarrow> string list" where
  \<comment> \<open>\<open>rowdict.get(key, "")\<close> for each field name; \<open>None\<close> is written as the empty string\<close>
  "dict_to_list fieldnames row =
     map (\<lambda>k. case row_get row k of None \<Rightarrow> [] | Some v \<Rightarrow> v) fieldnames"

definition writerow :: "string list \<Rightarrow> dictrow \<Rightarrow> error + string list" where
  \<comment> \<open>\<open>csv.DictWriter.writerow\<close> with the default \<open>extrasaction\<close>: a field outside
      \<open>fieldnames\<close> raises ValueError\<close>
  "writerow fieldnames row =
     (if has_wrong_fields fieldnames row then Inl ValueError
      else Inr (dict_to_list fieldnames row))"

fun writerows :: "string list \<Rightarrow> dictrow list \<Rightarrow> string list list \<times> error option" where
  \<comment> \<open>the loop \<open>for row in ...: writer.writerow(row)\<close>: the lines written, and the
      exception that stopped the loop, if any\<close>
  "writerows fieldnames [] = ([], None)"
| "writerows fieldnames (row # rest) =
     (case writerow fieldnames row of
        Inl e \<Rightarrow> ([], Some e)
      | Inr line \<Rightarrow> (case writerows fieldnames rest of (ls, e) \<Rightarrow> (line # ls, e)))"

subsection \<open>deduplicate_csv\<close>

definition remember :: "string \<Rightarrow> dictrow \<Rightarrow> (string \<times> dictrow) list \<Rightarrow> (string \<times> dictrow) list" where
  \<comment> \<open>the body of the reading loop; \<open>seen\<close> is a dict, which keeps insertion order\<close>
  "remember key_field row seen =
     (case row_get row key_field of
        None \<Rightarrow> seen
      | Some key \<Rightarrow> if key \<noteq> [] \<and> map_of seen key = None then seen @ [(key, row)] else seen)"

definition seen_rows :: "string \<Rightarrow> dictrow list \<Rightarrow> (string \<times> dictrow) list" where
  "seen_rows key_field rs = fold (remember key_field) rs []"

definition deduplicate_csv :: "csv_file option \<Rightarrow> string \<Rightarrow> string list \<Rightarrow> csv_file option" where
  \<comment> \<open>the file at \<open>path\<close> before and after; the handler around the whole body logs
      every exception.  A missing file makes \<open>open\<close> raise.  An exception while reading
      leaves the file as it was, since it has not been opened for writing yet.  An exception
      while writing leaves the header and the lines written so far.\<close>
  "deduplicate_csv file key_field fieldnames =
     (case file of
        None \<Rightarrow> None
      | Some f \<Rightarrow>
          (case DictReader f of
             Inl e \<Rightarrow> Some f
           | Inr rows \<Rightarrow>
               let seen = seen_rows key_field rows
               in Some (fieldnames # fst (writerows fieldnames (map snd seen)))))"

section \<open>Strings\<close>

text \<open>
  Where only equality, emptiness, length and the ASCII digits of a Python \<open>str\<close> matter
  (cells, titles, URLs, prices) it is modelled as a \<open>string\<close>, one \<open>char\<close> for each code
  point; the code points below 256 are the ones HOL's \<open>char\<close> has, which covers the pound
  sign (\<open>0xA3\<close>) and the capital A with circumflex (\<open>0xC2\<close>) of the price examples.

  The class names that \<open>parse_rating\<close> reads are stripped and capitalised, which depends
  on Unicode's tables: the ligature fi (\<open>U+FB01\<close>) followed by \<open>ve\<close> is capitalised to
  \<open>Five\<close>.  There a \<open>str\<close> is the list of its code points, and the tables beyond
  ASCII are a parameter of the model: which code points are white space, the title-case
  mapping of a code point, and the lower-case mapping of the code point at a position of a
  string (it depends on the position for the capital sigma).  On ASCII the mappings are
  written out.
\<close>

type_synonym ustr = "nat list"

definition ascii :: "string \<Rightarrow> ustr" where
  "ascii s = map of_char s"

record unicode =
  whitespace :: "nat \<Rightarrow> bool"
  title_full :: "nat \<Rightarrow> nat list"
  lower_full :: "nat list \<Rightarrow> nat \<Rightarrow> nat list"

definition isspace :: "unicode \<Rightarrow> nat \<Rightarrow> bool" where
  \<comment> \<open>\<open>str.isspace\<close> of one character: tab to carriage return, the four separators
      \<open>0x1C\<close> to \<open>0x1F\<close> and the space, or what the tables say beyond ASCII\<close>
  "isspace U c =
     (if c < 128 then c \<in> set [9, 10, 11, 12, 13, 28, 29, 30, 31, 32] else whitespace U c)"

definition strip :: "unicode \<Rightarrow> ustr \<Rightarrow> ustr" where
  "strip U s = rev (dropWhile (isspace U) (rev (dropWhile (isspace U) s)))"

definition to_title :: "unicode \<Rightarrow> nat \<Rightarrow> nat list" where
  "to_title U c =
     (if c < 128 then [if 97 \<le> c \<and> c \<le> 122 then c - 32 else c] else title_full U c)"

definition to_lower :: "unicode \<Rightarrow> ustr \<Rightarrow> nat \<Rightarrow> nat list" where
  "to_lower U s i =
     (if s ! i < 128 then [if 65 \<le> s ! i \<and> s ! i \<le> 90 then s ! i + 32 else s ! i]
      else lower_full U s i)"

definition capitalize :: "unicode \<Rightarrow> ustr \<Rightarrow> ustr" where
  \<comment> \<open>\<open>str.capitalize\<close>: the first character in title case, the others in lower case\<close>
  "capitalize U s =
     (case s of
        [] \<Rightarrow> []
      | c # cs \<Rightarrow> to_title U c @ concat (map (to_lower U s) [1..<length s]))"

section \<open>parse_price\<close>

definition is_numeric :: "char \<Rightarrow> bool" where
  \<comment> \<open>the character class \<open>[0-9.]\<close>\<close>
  "is_numeric c = (c \<in> set ''0123456789.'')"

definition sub_non_numeric :: "string \<Rightarrow> string" where
  \<comment> \<open>\<open>re.sub(r"[^0-9.]", "", s)\<close>\<close>
  "sub_non_numeric s = filter is_numeric s"

definition is_digit :: "char \<Rightarrow> bool" where
  "is_digit c = (c \<in> set ''0123456789'')"

definition digit_value :: "char \<Rightarrow> nat" where
  \<comment> \<open>the position of a digit in \<open>0123456789\<close>\<close>
  "digit_value c = length (takeWhile (\<lambda>d. d \<noteq> c) ''0123456789'')"

definition digits_value :: "string \<Rightarrow> nat" where
  "digits_value ds = foldl (\<lambda>n c. 10 * n + digit_value c) 0 ds"

definition float_of_numeric :: "string \<Rightarrow> error + rat" where
  \<comment> \<open>\<open>float(s)\<close> for a string of ASCII digits and dots, the only strings that
      \<open>sub_non_numeric\<close> returns: digits with at most one dot and at least one digit, or
      ValueError.  The result is the decimal number the string denotes; Python rounds it to
      the nearest double, which is not modelled.\<close>
  "float_of_numeric s =
     (let whole = takeWhile is_digit s; rest = dropWhile is_digit s
      in case rest of
           [] \<Rightarrow> if whole = [] then Inl ValueError else Inr (of_nat (digits_value whole))
         | c # fraction \<Rightarrow>
             if c = CHR ''.'' \<and> list_all is_digit fraction \<and> (whole \<noteq> [] \<or> fraction \<noteq> [])
             then Inr (of_nat (digits_value whole) + of_nat (digits_value fraction) / 10 ^ length fraction)
             else Inl ValueError)"

definition parse_price :: "string \<Rightarrow> error + rat" where
  \<comment> \<open>scraper.py: the whole body is inside \<open>try\<close>, and \<open>except Exception\<close> returns 0.0\<close>
  "parse_price price_str =
     (let cleaned = sub_non_numeric price_str
      in case (if cleaned \<noteq> [] then float_of_numeric cleaned else Inr 0) of
           Inl e \<Rightarrow> Inr 0
         | Inr v \<Rightarrow> Inr v)"

definition books_parse_price :: "string \<Rightarrow> error + rat" where
  \<comment> \<open>books_scraper.py: only \<open>float\<close> is inside \<open>try\<close>, and only ValueError is caught\<close>
  "books_parse_price price_text =
     (let cleaned = sub_non_numeric price_text
      in case float_of_numeric cleaned of
           Inl ValueError \<Rightarrow> Inr 0
         | Inl e \<Rightarrow> Inl e
         | Inr v \<Rightarrow> Inr v)"

section \<open>parse_rating\<close>

definition RATING_MAP :: "(ustr \<times> int) list" where
  "RATING_MAP =
     [(ascii ''One'', 1), (ascii ''Two'', 2), (ascii ''Three'', 3), (ascii ''Four'', 4),
      (ascii ''Five'', 5)]"

fun parse_rating :: "unicode \<Rightarrow> ustr list \<Rightarrow> int" where
  \<comment> \<open>scraper.py.  Nothing in the loop raises on a list of strings, so the handler around it
      is never entered.\<close>
  "parse_rating U [] = 0"
| "parse_rating U (cls # classes) =
     (if cls = [] then parse_rating U classes
      else
        let key = strip U cls
        in case map_of RATING_MAP key of
             Some n \<Rightarrow> n
           | None \<Rightarrow>
               (let k2 = capitalize U key
                in case map_of RATING_MAP k2 of
                     Some n \<Rightarrow> n
                   | None \<Rightarrow> parse_rating U classes))"

fun books_parse_rating :: "unicode \<Rightarrow> ustr list \<Rightarrow> int" where
  \<comment> \<open>books_scraper.py\<close>
  "books_parse_rating U [] = 0"
| "books_parse_rating U (cls # classes) =
     (if cls \<noteq> [] \<and> cls \<noteq> ascii ''star-rating''
      then
        let text = capitalize U cls
        in case map_of RATING_MAP text of
             Some n \<Rightarrow> n
           | None \<Rightarrow> books_parse_rating U classes
      else books_parse_rating U classes)"

section \<open>The fetcher\<close>

definition BASE_URL :: string where
  "BASE_URL = ''http://books.toscrape.com/''"

definition RETRY_ATTEMPTS :: nat where
  "RETRY_ATTEMPTS = 3"

record response =
  status_code :: nat
  resp_text :: string

text \<open>
  What one call of \<open>session.get\<close> does: it returns a response, raises an exception of
  the \<open>requests.RequestException\<close> family, or raises some other \<open>Exception\<close>.
\<close>

datatype outcome = Responded response | RequestException | OtherException

text \<open>
  Everything the crawl does to the outside is written to a trace, in order: a GET of a
  URL, the append of a page's lines to the output file (with the page number and what
  became of it), the save of a checkpoint (with the page number, the cursor and what
  became of it).  The pauses of \<open>time.sleep\<close> change nothing that is modelled and
  are left out.
\<close>

datatype append_result = Appended | Append_open_failed | Append_write_failed "string list list"

datatype save_result = Saved | Save_open_failed | Save_write_failed

datatype event =
    Get string
  | Append nat "string list list" append_result
  | Save nat "string option" save_result

datatype pyval = PNone | PStr string

text \<open>
  The checkpoint file: missing, present but unreadable, readable but not JSON, or a JSON
  object, given as the dict that \<open>json.load\<close> returns.  The values are strings or
  \<open>null\<close>, which is all that \<open>save_checkpoint\<close> ever writes; a file that holds
  JSON of another shape is not modelled.
\<close>

datatype ckfile = Absent | Unreadable | Invalid_JSON | Object "(string \<times> pyval) list"

text \<open>
  The output file is kept as what \<open>csv.reader\<close> makes of it, line by line
  (\<open>None\<close> when there is no file), together with whether the file ends inside a row:
  rows written to such a file continue that row.
\<close>

record world =
  trace :: "event list"
  csv :: "csv_file option"
  torn :: bool
  checkpoint :: ckfile

text \<open>
  A parsed listing page, reduced to what \<open>scrape\<close> reads from it.  For an
  \<open>article.product_pod\<close>: the \<open>a\<close> inside its \<open>h3\<close> (\<open>None\<close> when either is
  missing) with its \<open>title\<close> attribute, its text and its \<open>href\<close>; the text of its
  \<open>p.price_color\<close>; the class list of its \<open>p.star-rating\<close>.  For the page: its
  articles, and the \<open>href\<close> of \<open>li.next > a\<close> (\<open>None\<close> when there is no such
  link, \<open>Some None\<close> when the link has no \<open>href\<close>).
\<close>

record anchor =
  a_title :: "string option"
  a_text :: string
  a_href :: "string option"

record article =
  h3_a :: "anchor option"
  price_color :: "string option"
  star_rating :: "ustr list option"

record listing =
  product_articles :: "article list"
  next_link :: "string option option"

text \<open>
  The surroundings of a run: the server (what the GET issued at a given moment returns, a
  moment being the number of events so far), the HTML parser with the selectors applied to
  a listing page, the number of reviews read from a product page (BeautifulSoup followed by
  \<open>extract_number_of_reviews\<close>, which returns -1 where it finds no number and whose
  exceptions \<open>scrape\<close> turns into -1), \<open>urljoin\<close> (which raises ValueError on some
  links), Unicode's tables, the clock, the formatting of a float, the faults of the file
  system at each page, and, for a page whose rows are written to a file that ends inside a
  row, what the reader makes of the file afterwards and whether it still ends inside a row.
\<close>

record env =
  session_get :: "nat \<Rightarrow> string \<Rightarrow> outcome"
  listing_of :: "string \<Rightarrow> listing"
  extract_number_of_reviews :: "string \<Rightarrow> int"
  urljoin :: "string \<Rightarrow> string option \<Rightarrow> error + string"
  ucd :: unicode
  utcnow :: "nat \<Rightarrow> string"
  str_float :: "rat \<Rightarrow> string"
  append_fault :: "nat \<Rightarrow> append_result"
  save_fault :: "nat \<Rightarrow> save_result"
  glue :: "nat \<Rightarrow> csv_file \<Rightarrow> string list list \<Rightarrow> csv_file \<times> bool"

fun retry_loop :: "env \<Rightarrow> string \<Rightarrow> nat list \<Rightarrow> world \<Rightarrow> (error + response option) \<times> world" where
  \<comment> \<open>\<open>for attempt in range(1, RETRY_ATTEMPTS + 1)\<close>, then \<open>return None\<close>\<close>
  "retry_loop E url [] w = (Inr None, w)"
| "retry_loop E url (attempt # attempts) w =
     (let w' = w\<lparr>trace := trace w @ [Get url]\<rparr>
      in case session_get E (length (trace w)) url of
           Responded resp \<Rightarrow>
             if status_code resp = 200 then (Inr (Some resp), w')
             else retry_loop E url attempts w'
         | RequestException \<Rightarrow> retry_loop E url attempts w'
         | OtherException \<Rightarrow> (Inl UnhandledError, w'))"

definition retry_get :: "env \<Rightarrow> string \<Rightarrow> world \<Rightarrow> (error + response option) \<times> world" where
  "retry_get E url w = retry_loop E url [1..<RETRY_ATTEMPTS + 1] w"

section \<open>The checkpoint store\<close>

definition read_json :: "ckfile \<Rightarrow> error + (string \<times> pyval) list" where
  \<comment> \<open>\<open>open\<close> followed by \<open>json.load\<close>\<close>
  "read_json c =
     (case c of
        Absent \<Rightarrow> Inl FileNotFoundError
      | Unreadable \<Rightarrow> Inl OSError
      | Invalid_JSON \<Rightarrow> Inl JSONDecodeError
      | Object d \<Rightarrow> Inr d)"

definition load_checkpoint :: "ckfile \<Rightarrow> (string \<times> pyval) list" where
  "load_checkpoint c =
     (if c \<noteq> Absent
      then (case read_json c of Inr d \<Rightarrow> d | Inl e \<Rightarrow> [])
      else [])"

definition start_url :: "(string \<times> pyval) list \<Rightarrow> string" where
  \<comment> \<open>\<open>checkpoint.get("next_url") or BASE_URL\<close>\<close>
  "start_url ck =
     (case map_of ck ''next_url'' of
        Some (PStr u) \<Rightarrow> if u \<noteq> [] then u else BASE_URL
      | _ \<Rightarrow> BASE_URL)"

definition save_checkpoint :: "env \<Rightarrow> nat \<Rightarrow> string option \<Rightarrow> world \<Rightarrow> world" where
  \<comment> \<open>writes \<open>{"next_url": cursor}\<close>; an exception is logged and dropped.  A failed
      \<open>open\<close> leaves the file as it was, a failed write leaves it cut short.\<close>
  "save_checkpoint E page_count cursor w =
     w\<lparr>trace := trace w @ [Save page_count cursor (save_fault E page_count)],
       checkpoint :=
         (case save_fault E page_count of
            Saved \<Rightarrow> Object [(''next_url'', case cursor of None \<Rightarrow> PNone | Some u \<Rightarrow> PStr u)]
          | Save_open_failed \<Rightarrow> checkpoint w
          | Save_write_failed \<Rightarrow> Invalid_JSON)\<rparr>"

section \<open>The crawl driver\<close>

definition scrape_fieldnames :: "string list" where
  "scrape_fieldnames =
     [''title'', ''price'', ''rating'', ''number_of_reviews'', ''product_page_url'', ''scraped_at'']"

record product =
  title :: string
  price :: rat
  rating :: int
  number_of_reviews :: int
  product_page_url :: string
  scraped_at :: string

definition ensure_csv_header :: "string list \<Rightarrow> world \<Rightarrow> world" where
  "ensure_csv_header fieldnames w =
     (case csv w of None \<Rightarrow> w\<lparr>csv := Some [fieldnames], torn := False\<rparr> | Some f \<Rightarrow> w)"

definition scrape_article :: "env \<Rightarrow> string \<Rightarrow> article \<Rightarrow> world \<Rightarrow> product option \<times> world" where
  \<comment> \<open>the body of \<open>for art in product_articles\<close>.  \<open>None\<close> is the handler's
      \<open>continue\<close>: a missing \<open>h3\<close> or \<open>a\<close> raises AttributeError, and an exception
      out of \<open>urljoin\<close>, \<open>parse_price\<close> or \<open>retry_get\<close> is caught the same way.  A
      response that \<open>retry_get\<close> returns has status 200 and so is truthy.\<close>
  "scrape_article E next_url art w =
     (case h3_a art of
        None \<Rightarrow> (None, w)
      | Some a \<Rightarrow>
          (let title' = (case a_title a of
                           None \<Rightarrow> a_text a
                         | Some t \<Rightarrow> if t \<noteq> [] then t else a_text a)
           in (case urljoin E next_url (a_href a) of
                 Inl e \<Rightarrow> (None, w)
               | Inr product_url \<Rightarrow>
                   (case (case price_color art of
                            None \<Rightarrow> Inr 0
                          | Some price_text \<Rightarrow> parse_price price_text) of
                      Inl e \<Rightarrow> (None, w)
                    | Inr price' \<Rightarrow>
                        (let rating' = (case star_rating art of
                                          None \<Rightarrow> 0
                                        | Some classes \<Rightarrow> parse_rating (ucd E) classes)
                         in (case retry_get E product_url w of
                               (Inl e, w') \<Rightarrow> (None, w')
                             | (Inr prod_resp, w') \<Rightarrow>
                                 (let num_reviews =
                                        (case prod_resp of
                                           None \<Rightarrow> - 1
                                         | Some r \<Rightarrow>
                                             extract_number_of_reviews E (resp_text r))
                                  in (Some \<lparr>title = title', price = price',
                                             rating = rating',
                                             number_of_reviews = num_reviews,
                                             product_page_url = product_url,
                                             scraped_at =
                                               utcnow E (length (trace w')) @ ''Z''\<rparr>,
                                      w'))))))))"

fun scrape_articles :: "env \<Rightarrow> string \<Rightarrow> article list \<Rightarrow> world \<Rightarrow> product list \<times> world" where
  \<comment> \<open>the loop that fills \<open>rows_to_write\<close>\<close>
  "scrape_articles E next_url [] w = ([], w)"
| "scrape_articles E next_url (art # arts) w =
     (case scrape_article E next_url art w of
        (r, w') \<Rightarrow>
          (case scrape_articles E next_url arts w' of
             (rows_to_write, w'') \<Rightarrow>
               ((case r of None \<Rightarrow> rows_to_write | Some row \<Rightarrow> row # rows_to_write), w'')))"

fun str_nat :: "nat \<Rightarrow> string" where
  "str_nat n =
     (if n < 10 then [''0123456789'' ! n]
      else str_nat (n div 10) @ [''0123456789'' ! (n mod 10)])"

definition str_int :: "int \<Rightarrow> string" where
  "str_int i = (if i < 0 then CHR ''-'' # str_nat (nat (- i)) else str_nat (nat i))"

definition cells_of :: "env \<Rightarrow> product \<Rightarrow> string list" where
  \<comment> \<open>what \<open>DictWriter.writerow\<close> writes for a row: its values in the order of the field names\<close>
  "cells_of E r =
     [title r, str_float E (price r), str_int (rating r), str_int (number_of_reviews r),
      product_page_url r, scraped_at r]"

definition written :: "env \<Rightarrow> nat \<Rightarrow> world \<Rightarrow> string list list \<Rightarrow> csv_file \<times> bool" where
  \<comment> \<open>the output file once \<open>lines\<close> have been written at its end, and whether it ends
      inside a row then\<close>
  "written E page_count w lines =
     (let old = (case csv w of None \<Rightarrow> [] | Some f \<Rightarrow> f)
      in if torn w then glue E page_count old lines else (old @ lines, False))"

definition append_page :: "env \<Rightarrow> nat \<Rightarrow> product list \<Rightarrow> world \<Rightarrow> world" where
  \<comment> \<open>opens the file for appending and writes the rows; an exception is logged and
      dropped.  A failed \<open>open\<close> leaves the file as it was.  A failed write leaves at the
      end of the file the part of the rows' text that had reached it, which the reader takes
      for the lines \<open>left\<close> that the fault names, the last of them cut short; the file
      may end inside a row from then on.\<close>
  "append_page E page_count rows_to_write w =
     (let lines = map (cells_of E) rows_to_write
      in w\<lparr>trace := trace w @ [Append page_count lines (append_fault E page_count)],
            csv :=
              (case append_fault E page_count of
                 Appended \<Rightarrow> Some (fst (written E page_count w lines))
               | Append_open_failed \<Rightarrow> csv w
               | Append_write_failed left \<Rightarrow> Some (fst (written E page_count w left))),
            torn :=
              (case append_fault E page_count of
                 Appended \<Rightarrow> snd (written E page_count w lines)
               | Append_open_failed \<Rightarrow> torn w
               | Append_write_failed left \<Rightarrow> True)\<rparr>)"

definition process_page ::
    "env \<Rightarrow> nat \<Rightarrow> string \<Rightarrow> response \<Rightarrow> world \<Rightarrow> (error + string option) \<times> world" where
  \<comment> \<open>the rest of the loop body once the listing page has been fetched: the new
      \<open>next_url\<close>, or the exception that \<open>urljoin\<close> raises on the next link, which no
      handler catches and which leaves the page appended and the checkpoint unsaved\<close>
  "process_page E page_count next_url resp w =
     (let soup = listing_of E (resp_text resp)
      in case scrape_articles E next_url (product_articles soup) w of
           (rows_to_write, w1) \<Rightarrow>
             (let w2 = append_page E page_count rows_to_write w1
              in (case next_link soup of
                    Some href \<Rightarrow>
                      (case urljoin E next_url href of
                         Inl e \<Rightarrow> (Inl e, w2)
                       | Inr next_url' \<Rightarrow>
                           (Inr (Some next_url'),
                            save_checkpoint E page_count (Some next_url') w2))
                  | None \<Rightarrow> (Inr None, save_checkpoint E page_count None w2))))"

datatype run_end = Finished | Raised error | Out_of_fuel

fun scrape_loop :: "env \<Rightarrow> nat \<Rightarrow> nat \<Rightarrow> string option \<Rightarrow> world \<Rightarrow> run_end \<times> world" where
  \<comment> \<open>\<open>while next_url:\<close> with fuel, the number of listing pages the run may still
      fetch.  The loop ends (\<open>Finished\<close>) with a falsy cursor or with the \<open>break\<close>
      after a listing page that cannot be fetched; an exception leaves it (\<open>Raised\<close>);
      \<open>Out_of_fuel\<close> is a run that is not over when the fuel is, with the world as the run
      has made it so far.\<close>
  "scrape_loop E fuel page_count None w = (Finished, w)"
| "scrape_loop E 0 page_count (Some next_url) w =
     (if next_url = [] then (Finished, w) else (Out_of_fuel, w))"
| "scrape_loop E (Suc fuel) page_count (Some next_url) w =
     (if next_url = [] then (Finished, w)
      else
        case retry_get E next_url w of
          (Inl e, w1) \<Rightarrow> (Raised e, w1)
        | (Inr None, w1) \<Rightarrow> (Finished, w1)
        | (Inr (Some resp), w1) \<Rightarrow>
            (case process_page E (page_count + 1) next_url resp w1 of
               (Inl e, w2) \<Rightarrow> (Raised e, w2)
             | (Inr cursor, w2) \<Rightarrow> scrape_loop E fuel (page_count + 1) cursor w2))"

definition scrape :: "env \<Rightarrow> nat \<Rightarrow> world \<Rightarrow> run_end \<times> world" where
  \<comment> \<open>the deduplication pass runs once the loop has ended, not after an exception; a file
      that it rewrites ends with a whole row\<close>
  "scrape E fuel w =
     (let w0 = ensure_csv_header scrape_fieldnames w;
          ck = load_checkpoint (checkpoint w0);
          next_url = start_url ck
      in case scrape_loop E fuel 0 (Some next_url) w0 of
           (Finished, w1) \<Rightarrow>
             (Finished,
              w1\<lparr>csv := deduplicate_csv (csv w1) ''title'' scrape_fieldnames,
                 torn := (case csv w1 of
                            None \<Rightarrow> torn w1
                          | Some f \<Rightarrow> (case DictReader f of
                                        Inl e \<Rightarrow> torn w1
                                      | Inr rows \<Rightarrow> False))\<rparr>)
         | (Raised e, w1) \<Rightarrow> (Raised e, w1)
         | (Out_of_fuel, w1) \<Rightarrow> (Out_of_fuel, w1))"

section \<open>Notions used to state the properties\<close>

text \<open>
  The cell that a line holds for a field, and the lines that are the first to carry their
  non-empty key.  These follow the wording of the specification ("retains the first-seen row
  per key, in original first-seen order"), not the code.
\<close>

definition cell :: "string list \<Rightarrow> string \<Rightarrow> string list \<Rightarrow> string option" where
  "cell fieldnames k row = map_of (zip fieldnames row) k"






text \<open>
  The rating label that a class names: in scraper.py the class, stripped of the white space
  around it and capitalised, is the label; in books_scraper.py the class, capitalised, is
  the label.  The rating of a class list is then the label of the first class that names
  one, and 0 when none does.
\<close>

definition label_of :: "unicode \<Rightarrow> ustr \<Rightarrow> int option" where
  "label_of U cls = map_of RATING_MAP (capitalize U (strip U cls))"

definition books_label_of :: "unicode \<Rightarrow> ustr \<Rightarrow> int option" where
  "books_label_of U cls = map_of RATING_MAP (capitalize U cls)"

fun first_label :: "(ustr \<Rightarrow> int option) \<Rightarrow> ustr list \<Rightarrow> int" where
  "first_label names [] = 0"
| "first_label names (cls # classes) =
     (case names cls of Some n \<Rightarrow> n | None \<Rightarrow> first_label names classes)"

text \<open>
  A GET attempt fails, for \<open>retry_get\<close>, when \<open>session.get\<close> raises a
  \<open>RequestException\<close> or returns a status other than 200.
\<close>

definition attempt_fails :: "env \<Rightarrow> string \<Rightarrow> nat \<Rightarrow> bool" where
  "attempt_fails E url t =
     (case session_get E t url of
        Responded resp \<Rightarrow> status_code resp \<noteq> 200
      | RequestException \<Rightarrow> True
      | OtherException \<Rightarrow> False)"

definition is_get :: "event \<Rightarrow> bool" where
  "is_get e = (case e of Get url \<Rightarrow> True | _ \<Rightarrow> False)"

text \<open>
  The output file after the append of a page's lines to a file that ended with a whole row,
  by what became of the append: the page's lines are all in the file, behind the lines it
  had, when the append went through; after a failed write the file ends with what the fault
  left.
\<close>

definition store_after :: "append_result \<Rightarrow> csv_file option \<Rightarrow> string list list \<Rightarrow> csv_file option" where
  "store_after a before lines =
     (case a of
        Appended \<Rightarrow> Some ((case before of None \<Rightarrow> [] | Some f \<Rightarrow> f) @ lines)
      | Append_open_failed \<Rightarrow> before
      | Append_write_failed left \<Rightarrow> Some ((case before of None \<Rightarrow> [] | Some f \<Rightarrow> f) @ left))"

definition cursor_value :: "string option \<Rightarrow> pyval" where
  "cursor_value cursor = (case cursor of None \<Rightarrow> PNone | Some u \<Rightarrow> PStr u)"

text \<open>
  The states of the checkpoint file that carry no cursor: the file is missing, unreadable or
  not JSON, or its \<open>next_url\<close> is missing, \<open>null\<close> or the empty string.
\<close>

definition starts_afresh :: "ckfile \<Rightarrow> bool" where
  "starts_afresh c =
     (case c of
        Object d \<Rightarrow> (case map_of d ''next_url'' of Some (PStr u) \<Rightarrow> u = [] | _ \<Rightarrow> True)
      | _ \<Rightarrow> True)"

text \<open>
  In a trace, every save of a checkpoint comes directly after the append of the same page.
\<close>

fun saves_follow_appends :: "event list \<Rightarrow> bool" where
  "saves_follow_appends [] = True"
| "saves_follow_appends (Get url # es) = saves_follow_appends es"
| "saves_follow_appends (Append p ls a # Save q c s # es) = (p = q \<and> saves_follow_appends es)"
| "saves_follow_appends (Append p ls a # es) = saves_follow_appends es"
| "saves_follow_appends (Save q c s # es) = False"

section \<open>Example sites\<close>

text \<open>
  Small surroundings on which the properties below are run: a server that is down, one that
  answers every request with a given status, one that recovers at the third request, and a
  shop of one page with one book.
\<close>

definition empty_world :: world where
  "empty_world = \<lparr>trace = [], csv = None, torn = False, checkpoint = Absent\<rparr>"

definition plain_tables :: unicode where
  \<comment> \<open>tables with no white space and no case beyond ASCII\<close>
  "plain_tables =
     \<lparr>whitespace = (\<lambda>c. False), title_full = (\<lambda>c. [c]), lower_full = (\<lambda>s i. [s ! i])\<rparr>"

definition ligature_tables :: unicode where
  \<comment> \<open>the same, with the no-break space \<open>U+00A0\<close> as white space and the title case of
      the ligature fi, \<open>U+FB01\<close>, which is the two letters \<open>Fi\<close>\<close>
  "ligature_tables =
     plain_tables
       \<lparr>whitespace := (\<lambda>c. c = 160),
        title_full := (\<lambda>c. if c = 64257 then [70, 105] else [c])\<rparr>"

definition quiet_env :: env where
  "quiet_env =
     \<lparr>session_get = (\<lambda>t url. RequestException),
      listing_of = (\<lambda>page. \<lparr>product_articles = [], next_link = None\<rparr>),
      extract_number_of_reviews = (\<lambda>page. 0),
      urljoin = (\<lambda>base href. Inr (case href of None \<Rightarrow> base | Some h \<Rightarrow> base @ h)),
      ucd = plain_tables,
      utcnow = (\<lambda>t. ''2024-01-01T00:00:00''),
      str_float = (\<lambda>x. ''51.77''),
      append_fault = (\<lambda>page. Appended),
      save_fault = (\<lambda>page. Saved),
      glue = (\<lambda>page old lines. (old @ lines, False))\<rparr>"

definition status_env :: "nat \<Rightarrow> env" where
  "status_env code =
     quiet_env\<lparr>session_get := (\<lambda>t url. Responded \<lparr>status_code = code, resp_text = []\<rparr>)\<rparr>"

definition flaky_env :: env where
  "flaky_env =
     quiet_env
       \<lparr>session_get :=
          (\<lambda>t url. if t = 0 then RequestException
                    else if t = 1 then Responded \<lparr>status_code = 500, resp_text = []\<rparr>
                    else Responded \<lparr>status_code = 200, resp_text = ''ok''\<rparr>)\<rparr>"

definition attic :: article where
  "attic =
     \<lparr>h3_a = Some \<lparr>a_title = Some ''A Light in the Attic'', a_text = ''A Light in the ...'',
                    a_href = Some ''a-light-in-the-attic_1000/index.html''\<rparr>,
      price_color = Some (CHR 0xA3 # ''51.77''),
      star_rating = Some [ascii ''star-rating'', ascii ''Three'']\<rparr>"

definition attic_url :: string where
  "attic_url = ''http://books.toscrape.com/a-light-in-the-attic_1000/index.html''"

definition attic_line :: "string list" where
  "attic_line =
     [''A Light in the Attic'', ''51.77'', ''3'', ''0'', attic_url, ''2024-01-01T00:00:00Z'']"

definition shop_env :: env where
  "shop_env =
     quiet_env
       \<lparr>session_get := (\<lambda>t url. Responded \<lparr>status_code = 200, resp_text = ''page''\<rparr>),
        listing_of := (\<lambda>page. \<lparr>product_articles = [attic], next_link = None\<rparr>)\<rparr>"

definition no_detail_env :: env where
  \<comment> \<open>the shop, with every page but the listing answering 404\<close>
  "no_detail_env =
     shop_env
       \<lparr>session_get :=
          (\<lambda>t url. Responded \<lparr>status_code = (if url = BASE_URL then 200 else 404),
                                 resp_text = ''page''\<rparr>)\<rparr>"

definition twin_env :: env where
  \<comment> \<open>the same, with the book twice on the listing page\<close>
  "twin_env =
     no_detail_env
       \<lparr>listing_of := (\<lambda>page. \<lparr>product_articles = [attic, attic], next_link = None\<rparr>)\<rparr>"

definition full_disk_env :: env where
  \<comment> \<open>the shop with a second page, and an output file that cannot be opened\<close>
  "full_disk_env =
     shop_env
       \<lparr>listing_of := (\<lambda>page. \<lparr>product_articles = [attic],
                                    next_link = Some (Some ''catalogue/page-2.html'')\<rparr>),
        append_fault := (\<lambda>page. Append_open_failed)\<rparr>"

definition listed_world :: world where
  \<comment> \<open>a first run, just after the listing page has been fetched\<close>
  "listed_world =
     \<lparr>trace = [Get BASE_URL], csv = Some [scrape_fieldnames], torn = False,
      checkpoint = Absent\<rparr>"

definition crawled_world :: world where
  \<comment> \<open>the shop crawled to completion\<close>
  "crawled_world =
     \<lparr>trace = [Get BASE_URL, Get attic_url, Append 1 [attic_line] Appended, Save 1 None Saved],
      csv = Some [scrape_fieldnames, attic_line],
      torn = False,
      checkpoint = Object [(''next_url'', PNone)]\<rparr>"

section \<open>Properties of the deduplication pass\<close>

text \<open>The limit on a cell, compared without counting up to it.\<close>

lemma within_limit_code [code]:
  "within_limit row = list_all (\<lambda>cell. int (length cell) \<le> 131072) row"
  by (simp add: within_limit_def field_size_limit_def)






































section \<open>Properties of the price and rating parsers\<close>

lemma float_of_numeric_error: "float_of_numeric s = Inl e \<Longrightarrow> e = ValueError"
  by (auto simp: float_of_numeric_def Let_def split: list.splits if_splits)

lemma float_of_numeric_empty: "float_of_numeric [] = Inl ValueError"
  by (simp add: float_of_numeric_def)

lemma parse_price_eq:
  "parse_price s = Inr (case float_of_numeric (sub_non_numeric s) of Inl e \<Rightarrow> 0 | Inr v \<Rightarrow> v)"
  by (simp add: parse_price_def Let_def float_of_numeric_empty split: sum.splits)

lemma books_parse_price_eq:
  "books_parse_price s = Inr (case float_of_numeric (sub_non_numeric s) of Inl e \<Rightarrow> 0 | Inr v \<Rightarrow> v)"
proof (cases "float_of_numeric (sub_non_numeric s)")
  case (Inl e)
  then have "e = ValueError" by (rule float_of_numeric_error)
  then show ?thesis using Inl by (simp add: books_parse_price_def)
next
  case (Inr v)
  then show ?thesis by (simp add: books_parse_price_def)
qed

lemmas price_eval = sub_non_numeric_def is_numeric_def float_of_numeric_def is_digit_def
  digits_value_def digit_value_def

lemmas string_eval = strip_def isspace_def capitalize_def to_title_def to_lower_def ascii_def
  upt_rec

lemma label_entry:
  assumes "(l, n) \<in> set RATING_MAP"
  shows "map_of RATING_MAP l = Some n" and "strip U l = l" and "capitalize U l = l"
    and "l \<noteq> []" and "l \<noteq> ascii ''star-rating''" and "1 \<le> n" and "n \<le> 5"
  using assms by (auto simp: RATING_MAP_def string_eval)

lemma exact_label:
  assumes "map_of RATING_MAP key = Some n"
  shows "map_of RATING_MAP (capitalize U key) = Some n"
proof -
  have "(key, n) \<in> set RATING_MAP" using assms by (rule map_of_SomeD)
  then show ?thesis using assms by (simp add: label_entry(3))
qed

lemma label_range:
  assumes "map_of RATING_MAP key = Some n"
  shows "1 \<le> n \<and> n \<le> 5"
proof -
  have "(key, n) \<in> set RATING_MAP" using assms by (rule map_of_SomeD)
  then show ?thesis by (simp add: label_entry(6,7))
qed

lemma parse_rating_step:
  "parse_rating U (cls # classes) =
     (case label_of U cls of Some n \<Rightarrow> n | None \<Rightarrow> parse_rating U classes)"
proof (cases "cls = []")
  case True
  then show ?thesis by (simp add: label_of_def strip_def capitalize_def RATING_MAP_def ascii_def)
next
  case False
  show ?thesis
  proof (cases "map_of RATING_MAP (strip U cls)")
    case None
    with False show ?thesis by (simp add: label_of_def)
  next
    case (Some n)
    then have "map_of RATING_MAP (capitalize U (strip U cls)) = Some n" by (rule exact_label)
    with False Some show ?thesis by (simp add: label_of_def)
  qed
qed

lemma books_parse_rating_step:
  "books_parse_rating U (cls # classes) =
     (case books_label_of U cls of Some n \<Rightarrow> n | None \<Rightarrow> books_parse_rating U classes)"
proof -
  have "books_label_of U [] = None" "books_label_of U (ascii ''star-rating'') = None"
    by (simp_all add: books_label_of_def string_eval RATING_MAP_def)
  then show ?thesis
    by (auto simp: books_label_of_def Let_def split: option.splits)
qed

lemma parse_rating_eq:
  "parse_rating U classes = first_label (label_of U) classes"
proof (induction classes)
  case Nil
  show ?case by simp
next
  case (Cons cls classes)
  show ?case unfolding parse_rating_step using Cons by (simp split: option.splits)
qed

lemma books_parse_rating_eq:
  "books_parse_rating U classes = first_label (books_label_of U) classes"
proof (induction classes)
  case Nil
  show ?case by simp
next
  case (Cons cls classes)
  show ?case unfolding books_parse_rating_step using Cons by (simp split: option.splits)
qed

lemma first_label_range:
  assumes "\<And>cls n. names cls = Some n \<Longrightarrow> 0 \<le> n \<and> n \<le> 5"
  shows "0 \<le> first_label names classes \<and> first_label names classes \<le> 5"
  using assms by (induction classes) (auto split: option.splits)

section \<open>Properties of the crawl\<close>

lemma retry_loop_fail:
  assumes "attempt_fails E url (length (trace w))"
  shows "retry_loop E url (a # as) w = retry_loop E url as (w\<lparr>trace := trace w @ [Get url]\<rparr>)"
  using assms by (auto simp: attempt_fails_def Let_def split: outcome.splits)

lemma retry_loop_success:
  assumes "session_get E (length (trace w)) url = Responded resp" and "status_code resp = 200"
  shows "retry_loop E url (a # as) w = (Inr (Some resp), w\<lparr>trace := trace w @ [Get url]\<rparr>)"
  using assms by (simp add: Let_def)

lemma retry_loop_fails:
  assumes "\<forall>i < length as. attempt_fails E url (length (trace w) + i)"
  shows "retry_loop E url as w = (Inr None, w\<lparr>trace := trace w @ replicate (length as) (Get url)\<rparr>)"
  using assms
proof (induction as arbitrary: w)
  case Nil
  then show ?case by simp
next
  case (Cons a as)
  have first: "attempt_fails E url (length (trace w))"
    using Cons.prems by force
  have "\<forall>i < length as. attempt_fails E url (length (trace (w\<lparr>trace := trace w @ [Get url]\<rparr>)) + i)"
    using Cons.prems by force
  then have "retry_loop E url as (w\<lparr>trace := trace w @ [Get url]\<rparr>)
      = (Inr None, w\<lparr>trace := trace w @ [Get url] @ replicate (length as) (Get url)\<rparr>)"
    using Cons.IH [of "w\<lparr>trace := trace w @ [Get url]\<rparr>"] by simp
  then show ?case
    by (simp add: retry_loop_fail [OF first] replicate_append_same del: retry_loop.simps)
qed

lemma retry_loop_then_success:
  assumes "\<forall>i < k. attempt_fails E url (length (trace w) + i)"
    and "k < length as"
    and "session_get E (length (trace w) + k) url = Responded resp"
    and "status_code resp = 200"
  shows "retry_loop E url as w = (Inr (Some resp), w\<lparr>trace := trace w @ replicate (Suc k) (Get url)\<rparr>)"
  using assms
proof (induction k arbitrary: w as)
  case 0
  then obtain a as' where "as = a # as'" by (cases as) auto
  then show ?case using 0 by (simp add: Let_def)
next
  case (Suc k)
  then obtain a as' where as: "as = a # as'" by (cases as) auto
  let ?w = "w\<lparr>trace := trace w @ [Get url]\<rparr>"
  have first: "attempt_fails E url (length (trace w))"
    using Suc.prems(1) by force
  have "\<forall>i < k. attempt_fails E url (length (trace ?w) + i)"
    using Suc.prems(1) by force
  moreover have "k < length as'" using Suc.prems(2) as by simp
  moreover have "session_get E (length (trace ?w) + k) url = Responded resp"
    using Suc.prems(3) by simp
  ultimately have "retry_loop E url as' ?w
      = (Inr (Some resp), ?w\<lparr>trace := trace ?w @ replicate (Suc k) (Get url)\<rparr>)"
    using Suc.prems(4) by (rule Suc.IH)
  then show ?case
    by (simp add: as retry_loop_fail [OF first] del: retry_loop.simps)
qed

lemma attempts: "[1..<RETRY_ATTEMPTS + 1] = [1, 2, 3]"
  by (simp add: RETRY_ATTEMPTS_def upt_rec)

lemma retry_loop_frame:
  "retry_loop E url as w = (r, w') \<Longrightarrow>
     \<exists>n. trace w' = trace w @ replicate n (Get url) \<and> csv w' = csv w \<and> torn w' = torn w
         \<and> checkpoint w' = checkpoint w \<and> (as \<noteq> [] \<longrightarrow> 0 < n)"
proof (induction as arbitrary: w)
  case Nil
  then show ?case by auto
next
  case (Cons a as)
  let ?w = "w\<lparr>trace := trace w @ [Get url]\<rparr>"
  have stop: ?case if "w' = ?w"
  proof -
    have "trace w' = trace w @ replicate 1 (Get url)" using that by simp
    then show ?thesis using that by (intro exI [of _ 1]) simp
  qed
  have continue: ?case if "retry_loop E url as ?w = (r, w')"
  proof -
    note run = that
    obtain n where "trace w' = trace ?w @ replicate n (Get url)" "csv w' = csv ?w"
        "torn w' = torn ?w" "checkpoint w' = checkpoint ?w"
      using Cons.IH [OF run] by blast
    then have "trace w' = trace w @ replicate (Suc n) (Get url)" "csv w' = csv w"
        "torn w' = torn w" "checkpoint w' = checkpoint w"
      by (simp_all add: replicate_append_same)
    then show ?thesis by (intro exI [of _ "Suc n"]) simp
  qed
  show ?case
    using Cons.prems stop continue
    by (auto simp: Let_def split: outcome.splits if_splits simp del: replicate.simps)
qed

lemma retry_get_frame:
  assumes "retry_get E url w = (r, w')"
  shows "\<exists>n. trace w' = trace w @ Get url # replicate n (Get url) \<and> csv w' = csv w
           \<and> torn w' = torn w \<and> checkpoint w' = checkpoint w"
proof -
  obtain n where n: "trace w' = trace w @ replicate n (Get url)" "csv w' = csv w"
      "torn w' = torn w" "checkpoint w' = checkpoint w" "0 < n"
    using retry_loop_frame [of E url "[1, 2, 3]" w r w'] assms
    unfolding retry_get_def attempts by auto
  then obtain m where "n = Suc m" by (cases n) auto
  then show ?thesis using n by (intro exI [of _ m]) simp
qed

lemma scrape_article_frame:
  assumes "scrape_article E u art w = (r, w')"
  shows "\<exists>gets. list_all is_get gets \<and> trace w' = trace w @ gets \<and> csv w' = csv w
           \<and> torn w' = torn w \<and> checkpoint w' = checkpoint w"
proof -
  have same: ?thesis if "w' = w"
    using that by (intro exI [of _ "[]"]) simp
  have fetched: ?thesis if "retry_get E url w = (x, w')" for url x
  proof -
    note run = that
    obtain n where "trace w' = trace w @ Get url # replicate n (Get url)" "csv w' = csv w"
        "torn w' = torn w" "checkpoint w' = checkpoint w"
      using retry_get_frame [OF run] by blast
    then show ?thesis
      by (intro exI [of _ "Get url # replicate n (Get url)"]) (simp add: is_get_def list_all_iff)
  qed
  show ?thesis
    using assms same fetched
    by (auto simp: scrape_article_def Let_def split: option.splits sum.splits prod.splits)
qed

lemma scrape_articles_frame:
  "scrape_articles E u arts w = (rows, w') \<Longrightarrow>
     \<exists>gets. list_all is_get gets \<and> trace w' = trace w @ gets \<and> csv w' = csv w
        \<and> torn w' = torn w \<and> checkpoint w' = checkpoint w"
proof (induction arts arbitrary: w rows)
  case Nil
  then show ?case by (intro exI [of _ "[]"]) simp
next
  case (Cons art arts)
  obtain r w1 where one: "scrape_article E u art w = (r, w1)" by (cases "scrape_article E u art w")
  obtain rs w2 where rest: "scrape_articles E u arts w1 = (rs, w2)"
    by (cases "scrape_articles E u arts w1")
  have "w' = w2" using Cons.prems one rest by (simp split: option.splits)
  note rest = rest [folded this]
  obtain g1 where g1: "list_all is_get g1" "trace w1 = trace w @ g1" "csv w1 = csv w"
      "torn w1 = torn w" "checkpoint w1 = checkpoint w"
    using scrape_article_frame [OF one] by blast
  obtain g2 where g2: "list_all is_get g2" "trace w' = trace w1 @ g2" "csv w' = csv w1"
      "torn w' = torn w1" "checkpoint w' = checkpoint w1"
    using Cons.IH [OF rest] by blast
  show ?case
    using g1 g2 by (intro exI [of _ "g1 @ g2"]) simp
qed

lemma process_page_result:
  assumes "scrape_articles E next_url (product_articles (listing_of E (resp_text resp))) w
             = (rows, w1)"
    and "process_page E page_count next_url resp w = (result, w')"
  shows "w' = (case result of
                 Inl e \<Rightarrow> append_page E page_count rows w1
               | Inr cursor \<Rightarrow> save_checkpoint E page_count cursor (append_page E page_count rows w1))"
  using assms
  by (auto simp: process_page_def Let_def split: option.splits sum.splits)

lemma process_page_events:
  assumes items: "scrape_articles E next_url (product_articles (listing_of E (resp_text resp))) w
             = (rows, w1)"
    and page: "process_page E page_count next_url resp w = (result, w')"
  shows "trace w' = trace w1
           @ Append page_count (map (cells_of E) rows) (append_fault E page_count)
             # (case result of
                  Inl e \<Rightarrow> []
                | Inr cursor \<Rightarrow> [Save page_count cursor (save_fault E page_count)])"
    and "\<not> torn w \<Longrightarrow>
           csv w' = store_after (append_fault E page_count) (csv w) (map (cells_of E) rows)"
    and "result = Inr cursor \<Longrightarrow> save_fault E page_count = Saved \<Longrightarrow>
           checkpoint w' = Object [(''next_url'', cursor_value cursor)]"
proof -
  obtain gets where gets: "list_all is_get gets" "trace w1 = trace w @ gets" "csv w1 = csv w"
      "torn w1 = torn w" "checkpoint w1 = checkpoint w"
    using scrape_articles_frame [OF items] by blast
  note w' = process_page_result [OF items page]
  show "trace w' = trace w1
           @ Append page_count (map (cells_of E) rows) (append_fault E page_count)
             # (case result of
                  Inl e \<Rightarrow> []
                | Inr cursor \<Rightarrow> [Save page_count cursor (save_fault E page_count)])"
    by (cases result) (simp_all add: w' save_checkpoint_def append_page_def Let_def)
  show "csv w' = store_after (append_fault E page_count) (csv w) (map (cells_of E) rows)"
    if "\<not> torn w"
    using that
    by (cases result)
      (simp_all add: w' save_checkpoint_def append_page_def written_def Let_def gets
        store_after_def split: append_result.splits)
  show "checkpoint w' = Object [(''next_url'', cursor_value cursor)]"
    if "result = Inr cursor" "save_fault E page_count = Saved"
    using that by (simp add: w' save_checkpoint_def cursor_value_def)
qed

lemma process_page_trace:
  assumes "process_page E page_count next_url resp w = (result, w')"
  shows "\<exists>gets lines.
           list_all is_get gets
         \<and> trace w' = trace w @ gets
              @ Append page_count lines (append_fault E page_count)
                # (case result of
                     Inl e \<Rightarrow> []
                   | Inr cursor \<Rightarrow> [Save page_count cursor (save_fault E page_count)])"
proof -
  let ?soup = "listing_of E (resp_text resp)"
  obtain rows w1 where items: "scrape_articles E next_url (product_articles ?soup) w = (rows, w1)"
    by (cases "scrape_articles E next_url (product_articles ?soup) w")
  obtain gets where gets: "list_all is_get gets" "trace w1 = trace w @ gets"
    using scrape_articles_frame [OF items] by blast
  show ?thesis
    using process_page_events(1) [OF items assms] gets by auto
qed

lemma start_url_nonempty: "start_url d \<noteq> []"
  by (simp add: start_url_def BASE_URL_def split: option.splits pyval.splits)

lemma start_url_afresh: "starts_afresh c \<Longrightarrow> start_url (load_checkpoint c) = BASE_URL"
  by (cases c)
    (auto simp: starts_afresh_def load_checkpoint_def read_json_def start_url_def
      split: option.splits pyval.splits)

lemma scrape_articles_append:
  "scrape_articles E u (xs @ ys) w =
     (case scrape_articles E u xs w of
        (rows1, w1) \<Rightarrow>
          (case scrape_articles E u ys w1 of (rows2, w2) \<Rightarrow> (rows1 @ rows2, w2)))"
  by (induction xs arbitrary: w) (auto split: prod.splits option.splits)

lemma parse_price_Inr: "\<exists>v. parse_price s = Inr v"
  by (simp add: parse_price_eq)

lemma scrape_article_degraded:
  assumes "h3_a art = Some a"
    and "urljoin E next_url (a_href a) = Inr product_url"
    and "retry_get E product_url w = (Inr None, w')"
  shows "\<exists>row. scrape_article E next_url art w = (Some row, w')
           \<and> number_of_reviews row = - 1
           \<and> title row = (case a_title a of
                             None \<Rightarrow> a_text a
                           | Some t \<Rightarrow> if t \<noteq> [] then t else a_text a)
           \<and> (case price_color art of
                 None \<Rightarrow> price row = 0
               | Some price_text \<Rightarrow> parse_price price_text = Inr (price row))
           \<and> rating row = (case star_rating art of
                              None \<Rightarrow> 0
                            | Some classes \<Rightarrow> parse_rating (ucd E) classes)
           \<and> product_page_url row = product_url"
proof (cases "price_color art")
  case None
  then show ?thesis using assms by (simp add: scrape_article_def Let_def)
next
  case (Some price_text)
  obtain v where "parse_price price_text = Inr v" using parse_price_Inr by blast
  then show ?thesis using assms Some by (simp add: scrape_article_def Let_def)
qed

lemma saves_follow_gets:
  "list_all is_get gets \<Longrightarrow> saves_follow_appends (gets @ es) = saves_follow_appends es"
proof (induction gets)
  case Nil
  then show ?case by simp
next
  case (Cons e gets)
  then show ?case by (cases e) (simp_all add: is_get_def)
qed

lemma saves_follow_replicate:
  "saves_follow_appends (replicate n (Get url) @ es) = saves_follow_appends es"
  by (induction n) simp_all

text \<open>
  What a run of the loop adds to the trace: every save in it comes directly after the append
  of the same page; a run that adds nothing leaves the world as it was; and a run whose last
  act is a save that went through leaves the cursor of that save in the checkpoint file, and
  is over when that cursor is null.
\<close>

lemma scrape_loop_run:
  "scrape_loop E fuel page_count cursor w = (r, w') \<Longrightarrow>
     \<exists>evs. trace w' = trace w @ evs \<and> saves_follow_appends evs
        \<and> (evs = [] \<longrightarrow> w' = w)
        \<and> (\<forall>q c. evs \<noteq> [] \<longrightarrow> last evs = Save q c Saved \<longrightarrow>
              checkpoint w' = Object [(''next_url'', cursor_value c)]
              \<and> (c = None \<longrightarrow> r = Finished))"
proof (induction E fuel page_count cursor w rule: scrape_loop.induct)
  case (1 E fuel page_count w)
  then show ?case by simp
next
  case (2 E page_count next_url w)
  then show ?case by (simp split: if_splits)
next
  case (3 E fuel page_count next_url w)
  show ?case
  proof (cases "next_url = []")
    case True
    then show ?thesis using "3.prems" by simp
  next
    case False
    obtain x w1 where get: "retry_get E next_url w = (x, w1)" by (cases "retry_get E next_url w")
    obtain n where n: "trace w1 = trace w @ Get next_url # replicate n (Get next_url)"
      using retry_get_frame [OF get] by blast
    let ?g = "Get next_url # replicate n (Get next_url)"
    have g: "list_all is_get ?g" by (simp add: is_get_def list_all_iff)
    have stop: ?thesis if "w' = w1"
    proof -
      have "last ?g = Get next_url" by simp
      then have "\<forall>q c. last ?g \<noteq> Save q c Saved" by simp
      moreover have "saves_follow_appends ?g"
        using saves_follow_gets [OF g, of "[]"] by simp
      ultimately show ?thesis
        using n that by (intro exI [of _ ?g]) simp
    qed
    show ?thesis
    proof (cases x)
      case (Inl e)
      then have "w' = w1" using "3.prems" False get by simp
      then show ?thesis by (rule stop)
    next
      case (Inr resp_opt)
      show ?thesis
      proof (cases resp_opt)
        case None
        then have "w' = w1" using "3.prems" False get Inr by simp
        then show ?thesis by (rule stop)
      next
        case (Some resp)
        let ?p = "page_count + 1"
        obtain res w2 where page: "process_page E ?p next_url resp w1 = (res, w2)"
          by (cases "process_page E ?p next_url resp w1")
        obtain h lines where h: "list_all is_get h"
          and tr2: "trace w2 = trace w1 @ h
              @ Append ?p lines (append_fault E ?p)
                # (case res of
                     Inl e \<Rightarrow> []
                   | Inr c \<Rightarrow> [Save ?p c (save_fault E ?p)])"
          using process_page_trace [OF page] by blast
        have gh: "list_all is_get (?g @ h)" using g h by simp
        show ?thesis
        proof (cases res)
          case (Inl e)
          let ?evs = "(?g @ h) @ [Append ?p lines (append_fault E ?p)]"
          have "w' = w2" using "3.prems" False get Inr Some page Inl by simp
          then have "trace w' = trace w @ ?evs" using tr2 n Inl by simp
          moreover have "saves_follow_appends ?evs"
            by (simp only: saves_follow_gets [OF gh]) simp
          moreover have "\<forall>q c. last ?evs \<noteq> Save q c Saved" by simp
          ultimately show ?thesis by (intro exI [of _ ?evs]) simp
        next
          case (Inr c)
          let ?page = "[Append ?p lines (append_fault E ?p), Save ?p c (save_fault E ?p)]"
          have loop: "scrape_loop E fuel ?p c w2 = (r, w')"
            using "3.prems" False get \<open>x = Inr resp_opt\<close> Some page Inr by simp
          obtain e2 where e2: "trace w' = trace w2 @ e2" "saves_follow_appends e2"
              "e2 = [] \<longrightarrow> w' = w2"
              "\<forall>q c. e2 \<noteq> [] \<longrightarrow> last e2 = Save q c Saved \<longrightarrow>
                 checkpoint w' = Object [(''next_url'', cursor_value c)]
                 \<and> (c = None \<longrightarrow> r = Finished)"
            using "3.IH" [OF False get [symmetric] \<open>x = Inr resp_opt\<close> Some page [symmetric] Inr loop]
            by blast
          let ?evs = "(?g @ h) @ ?page @ e2"
          have tr: "trace w' = trace w @ ?evs" using e2(1) tr2 n Inr by simp
          have order: "saves_follow_appends ?evs"
            using e2(2) by (simp only: saves_follow_gets [OF gh]) simp
          have final: "checkpoint w' = Object [(''next_url'', cursor_value c')]
                 \<and> (c' = None \<longrightarrow> r = Finished)"
            if last: "last ?evs = Save q c' Saved" for q c'
          proof (cases "e2 = []")
            case True
            then have w': "w' = w2" using e2(3) by simp
            have same: "q = ?p" "c' = c" "save_fault E ?p = Saved"
              using last True by auto
            obtain rows w1' where items: "scrape_articles E next_url
                (product_articles (listing_of E (resp_text resp))) w1 = (rows, w1')"
              by (cases "scrape_articles E next_url
                (product_articles (listing_of E (resp_text resp))) w1")
            have "checkpoint w2 = Object [(''next_url'', cursor_value c)]"
              using process_page_events(3) [OF items page Inr same(3)] .
            moreover have "r = Finished" if "c = None"
              using loop that by simp
            ultimately show ?thesis using w' same(2) by simp
          next
            case False
            then have "last ?evs = last e2" by simp
            then show ?thesis using e2(4) False last by simp
          qed
          show ?thesis
            using tr order final by (intro exI [of _ ?evs]) simp
        qed
      qed
    qed
  qed
qed

lemma scrape_loop_first_get:
  assumes "scrape_loop E (Suc fuel) page_count (Some u) w = (r, w')" and "u \<noteq> []"
  shows "\<exists>rest. trace w' = trace w @ Get u # rest"
proof -
  obtain x w1 where get: "retry_get E u w = (x, w1)" by (cases "retry_get E u w")
  obtain n where n: "trace w1 = trace w @ Get u # replicate n (Get u)"
    using retry_get_frame [OF get] by blast
  have "\<exists>evs. trace w' = trace w1 @ evs"
  proof (cases x)
    case (Inl e)
    then show ?thesis using assms get by simp
  next
    case (Inr resp_opt)
    show ?thesis
    proof (cases resp_opt)
      case None
      then show ?thesis using assms get Inr by simp
    next
      case (Some resp)
      obtain res w2 where page: "process_page E (page_count + 1) u resp w1 = (res, w2)"
        by (cases "process_page E (page_count + 1) u resp w1")
      obtain e1 where e1: "trace w2 = trace w1 @ e1"
        using process_page_trace [OF page] by blast
      show ?thesis
      proof (cases res)
        case (Inl e)
        then have "w' = w2" using assms get Inr Some page by simp
        then show ?thesis using e1 by simp
      next
        case (Inr c)
        then have "scrape_loop E fuel (page_count + 1) c w2 = (r, w')"
          using assms get \<open>x = Inr resp_opt\<close> Some page by simp
        then obtain e2 where "trace w' = trace w2 @ e2"
          using scrape_loop_run by blast
        then show ?thesis using e1 by simp
      qed
    qed
  qed
  then show ?thesis using n by auto
qed

lemma scrape_loop_of:
  "\<exists>r w1. scrape_loop E fuel 0 (Some (start_url (load_checkpoint (checkpoint w))))
             (ensure_csv_header scrape_fieldnames w) = (r, w1)
         \<and> fst (scrape E fuel w) = r
         \<and> trace (snd (scrape E fuel w)) = trace w1
         \<and> checkpoint (snd (scrape E fuel w)) = checkpoint w1"
proof -
  let ?w0 = "ensure_csv_header scrape_fieldnames w"
  have w0: "checkpoint ?w0 = checkpoint w"
    by (simp add: ensure_csv_header_def split: option.splits)
  obtain r w1 where loop: "scrape_loop E fuel 0
      (Some (start_url (load_checkpoint (checkpoint w)))) ?w0 = (r, w1)"
    by (cases "scrape_loop E fuel 0 (Some (start_url (load_checkpoint (checkpoint w)))) ?w0")
  then show ?thesis
    by (cases r) (simp_all add: scrape_def Let_def w0)
qed

lemma scrape_first_get:
  "\<exists>rest. trace (snd (scrape E (Suc fuel) w))
     = trace w @ Get (start_url (load_checkpoint (checkpoint w))) # rest"
proof -
  let ?w0 = "ensure_csv_header scrape_fieldnames w"
  have w0: "trace ?w0 = trace w"
    by (simp add: ensure_csv_header_def split: option.splits)
  obtain r w1 where loop: "scrape_loop E (Suc fuel) 0
      (Some (start_url (load_checkpoint (checkpoint w)))) ?w0 = (r, w1)"
    and tr: "trace (snd (scrape E (Suc fuel) w)) = trace w1"
    using scrape_loop_of by blast
  show ?thesis
    using scrape_loop_first_get [OF loop start_url_nonempty] by (simp add: tr w0)
qed

lemma scrape_run:
  "\<exists>evs. trace (snd (scrape E fuel w)) = trace w @ evs \<and> saves_follow_appends evs
      \<and> (\<forall>q c. evs \<noteq> [] \<longrightarrow> last evs = Save q c Saved \<longrightarrow>
            checkpoint (snd (scrape E fuel w)) = Object [(''next_url'', cursor_value c)]
            \<and> (c = None \<longrightarrow> fst (scrape E fuel w) = Finished))"
proof -
  let ?w0 = "ensure_csv_header scrape_fieldnames w"
  have w0: "trace ?w0 = trace w"
    by (simp add: ensure_csv_header_def split: option.splits)
  obtain r w1 where loop: "scrape_loop E fuel 0
      (Some (start_url (load_checkpoint (checkpoint w)))) ?w0 = (r, w1)"
    and r: "fst (scrape E fuel w) = r"
    and tr: "trace (snd (scrape E fuel w)) = trace w1"
    and ck: "checkpoint (snd (scrape E fuel w)) = checkpoint w1"
    using scrape_loop_of by blast
  obtain evs where "trace w1 = trace ?w0 @ evs" "saves_follow_appends evs"
      "\<forall>q c. evs \<noteq> [] \<longrightarrow> last evs = Save q c Saved \<longrightarrow>
         checkpoint w1 = Object [(''next_url'', cursor_value c)] \<and> (c = None \<longrightarrow> r = Finished)"
    using scrape_loop_run [OF loop] by blast
  then show ?thesis
    by (intro exI [of _ evs]) (simp add: r tr ck w0)
qed

section \<open>Main results\<close>

text \<open>
  One theorem for each claim about the program, with a run of it on a concrete input.
\<close>

subsection \<open>What the deduplication pass keeps\<close>




subsection \<open>Rows without a key\<close>




subsection \<open>Price parsing\<close>

text \<open>
  Claim C7.  For every input string, both price parsers convert what is left of the string
  once every character other than an ASCII digit or the dot has been removed, and return
  that number; when the conversion fails they return 0 and raise nothing (the result is
  always on the \<open>Inr\<close> side).
\<close>

theorem parse_price_strips_and_defaults:
  "parse_price s =
     Inr (case float_of_numeric (filter (\<lambda>c. c \<in> set ''0123456789.'') s) of
            Inl e \<Rightarrow> 0
          | Inr v \<Rightarrow> v)
   \<and> books_parse_price s =
     Inr (case float_of_numeric (filter (\<lambda>c. c \<in> set ''0123456789.'') s) of
            Inl e \<Rightarrow> 0
          | Inr v \<Rightarrow> v)"
proof -
  have "sub_non_numeric s = filter (\<lambda>c. c \<in> set ''0123456789.'') s"
    unfolding sub_non_numeric_def by (rule filter_cong) (simp_all only: is_numeric_def)
  then show ?thesis
    using parse_price_eq [of s] books_parse_price_eq [of s] by (simp only: simp_thms)
qed

text \<open>
  The examples of the specification: the price 51.77 behind a pound sign, and behind the two
  characters that a pound sign becomes when its UTF-8 bytes are read as Latin-1; the empty
  string and strings that hold no number.
\<close>

theorem parse_price_strips_and_defaults_witness:
  "parse_price (CHR 0xA3 # ''51.77'') = Inr (5177 / 100)
   \<and> books_parse_price (CHR 0xA3 # ''51.77'') = Inr (5177 / 100)
   \<and> parse_price (CHR 0xC2 # CHR 0xA3 # ''51.77'') = Inr (5177 / 100)
   \<and> books_parse_price (CHR 0xC2 # CHR 0xA3 # ''51.77'') = Inr (5177 / 100)
   \<and> parse_price [] = Inr 0 \<and> books_parse_price [] = Inr 0
   \<and> parse_price ''n/a'' = Inr 0 \<and> books_parse_price ''n/a'' = Inr 0
   \<and> parse_price ''1.2.3'' = Inr 0 \<and> books_parse_price ''1.2.3'' = Inr 0"
  using parse_price_strips_and_defaults [of "CHR 0xA3 # ''51.77''"]
    parse_price_strips_and_defaults [of "CHR 0xC2 # CHR 0xA3 # ''51.77''"]
    parse_price_strips_and_defaults [of "[]"]
    parse_price_strips_and_defaults [of "''n/a''"]
    parse_price_strips_and_defaults [of "''1.2.3''"]
  by (simp add: price_eval)

subsection \<open>Rating parsing\<close>

text \<open>
  Claim C8, as amended.  For every list of CSS classes, and whatever Unicode's tables are
  beyond ASCII, the rating is the number of the first class of the list that names one of
  the five labels One ... Five, and 0 when no class names a label.  In scraper.py a class
  names a label when, stripped of the white space around it and capitalised, it is the
  label; in books_scraper.py when, capitalised, it is the label.  Each of the five labels
  names itself for both parsers, with its number between 1 and 5, so a list whose first
  naming class is Three yields 3; and every rating lies between 0 and 5.
\<close>

theorem parse_rating_first_label:
  "parse_rating U classes = first_label (label_of U) classes
   \<and> books_parse_rating U classes = first_label (books_label_of U) classes
   \<and> (\<forall>(l, n) \<in> set RATING_MAP.
         label_of U l = Some n \<and> books_label_of U l = Some n \<and> 1 \<le> n \<and> n \<le> 5)
   \<and> 0 \<le> parse_rating U classes \<and> parse_rating U classes \<le> 5
   \<and> 0 \<le> books_parse_rating U classes \<and> books_parse_rating U classes \<le> 5"
proof -
  have labels: "\<forall>(l, n) \<in> set RATING_MAP.
         label_of U l = Some n \<and> books_label_of U l = Some n \<and> 1 \<le> n \<and> n \<le> 5"
    by (auto simp: label_of_def books_label_of_def label_entry)
  have "0 \<le> n \<and> n \<le> 5" if "label_of U cls = Some n" for cls n
    using that label_range [of "capitalize U (strip U cls)" n] by (simp add: label_of_def)
  then have range: "0 \<le> first_label (label_of U) classes \<and> first_label (label_of U) classes \<le> 5"
    by (rule first_label_range)
  have "0 \<le> n \<and> n \<le> 5" if "books_label_of U cls = Some n" for cls n
    using that label_range [of "capitalize U cls" n] by (simp add: books_label_of_def)
  then have books_range: "0 \<le> first_label (books_label_of U) classes
      \<and> first_label (books_label_of U) classes \<le> 5"
    by (rule first_label_range)
  show ?thesis
    using labels range books_range
    by (simp only: parse_rating_eq books_parse_rating_eq simp_thms)
qed

text \<open>
  The class list of a three-star rating; a label in lower case; a label behind a no-break
  space, which only scraper.py strips; and the ligature fi followed by \<open>ve\<close>, which
  capitalises to Five.
\<close>

theorem parse_rating_first_label_witness:
  "parse_rating ligature_tables [ascii ''star-rating'', ascii ''Three''] = 3
   \<and> books_parse_rating ligature_tables [ascii ''star-rating'', ascii ''Three''] = 3
   \<and> parse_rating ligature_tables [ascii ''three''] = 3
   \<and> books_parse_rating ligature_tables [ascii ''three''] = 3
   \<and> parse_rating ligature_tables [160 # ascii ''Three'', ascii ''Five''] = 3
   \<and> books_parse_rating ligature_tables [160 # ascii ''Three'', ascii ''Five''] = 5
   \<and> parse_rating ligature_tables [64257 # ascii ''ve''] = 5
   \<and> books_parse_rating ligature_tables [64257 # ascii ''ve''] = 5
   \<and> parse_rating ligature_tables [ascii ''star-rating'', ascii ''Six''] = 0
   \<and> books_parse_rating ligature_tables [ascii ''star-rating'', ascii ''Six''] = 0"
  using parse_rating_first_label [of ligature_tables "[ascii ''star-rating'', ascii ''Three'']"]
    parse_rating_first_label [of ligature_tables "[ascii ''three'']"]
    parse_rating_first_label [of ligature_tables "[160 # ascii ''Three'', ascii ''Five'']"]
    parse_rating_first_label [of ligature_tables "[64257 # ascii ''ve'']"]
    parse_rating_first_label [of ligature_tables "[ascii ''star-rating'', ascii ''Six'']"]
  by (simp add: label_of_def books_label_of_def string_eval RATING_MAP_def ligature_tables_def
      plain_tables_def)

text \<open>
  A class list that contains the label Three does not always yield 3: an earlier label
  wins.  And a class that is not one of the five labels can yield a rating other than 0: the
  class \<open>three\<close> is capitalised before it is looked up.
\<close>

theorem parse_rating_contains_three_counterexample:
  "ascii ''Three'' \<in> set [ascii ''Five'', ascii ''Three'']
   \<and> parse_rating plain_tables [ascii ''Five'', ascii ''Three''] = 5
   \<and> books_parse_rating plain_tables [ascii ''Five'', ascii ''Three''] = 5
   \<and> map_of RATING_MAP (ascii ''three'') = None
   \<and> parse_rating plain_tables [ascii ''three''] = 3
   \<and> books_parse_rating plain_tables [ascii ''three''] = 3"
  by (simp add: string_eval RATING_MAP_def)

subsection \<open>The fetcher\<close>

text \<open>
  Claim C3.  When every one of the three GET attempts for a URL fails, by a network error
  (a \<open>RequestException\<close>) or by a status that is not 200, which covers every status
  outside 2xx, \<open>retry_get\<close> issues exactly three GETs for the URL and returns
  \<open>None\<close>; it raises nothing and makes no fourth attempt.
\<close>

theorem retry_get_exhausts:
  assumes "\<forall>i < 3. attempt_fails E url (length (trace w) + i)"
  shows "retry_get E url w = (Inr None, w\<lparr>trace := trace w @ [Get url, Get url, Get url]\<rparr>)"
proof -
  have "retry_loop E url [1, 2, 3] w
      = (Inr None, w\<lparr>trace := trace w @ replicate (length [1::nat, 2, 3]) (Get url)\<rparr>)"
    using assms by (intro retry_loop_fails) simp
  then show ?thesis
    unfolding retry_get_def attempts by (simp add: numeral_3_eq_3 del: retry_loop.simps)
qed

text \<open>A server that answers 503 to everything.\<close>

theorem retry_get_exhausts_witness:
  "retry_get (status_env 503) ''http://x/'' empty_world
     = (Inr None, empty_world\<lparr>trace := trace empty_world
          @ [Get ''http://x/'', Get ''http://x/'', Get ''http://x/'']\<rparr>)"
  using retry_get_exhausts [of "status_env 503" "''http://x/''" empty_world]
  by (simp add: attempt_fails_def status_env_def quiet_env_def)

text \<open>
  Claim C4, as amended.  Success is the status 200 and nothing else.  When the first
  \<open>k\<close> attempts (\<open>k < 3\<close>) fail, by a network error or a status other than 200,
  each of them is followed by another attempt; and when the next attempt answers 200, that
  response is returned at once: the URL has been requested \<open>k + 1\<close> times and is not
  requested again.
\<close>

theorem retry_get_returns_first_200:
  assumes "\<forall>i < k. attempt_fails E url (length (trace w) + i)"
    and "k < 3"
    and "session_get E (length (trace w) + k) url = Responded resp"
    and "status_code resp = 200"
  shows "retry_get E url w = (Inr (Some resp), w\<lparr>trace := trace w @ replicate (Suc k) (Get url)\<rparr>)"
  unfolding retry_get_def attempts
  using assms by (intro retry_loop_then_success) simp_all

text \<open>A network error, then a 500, then a 200.\<close>

theorem retry_get_returns_first_200_witness:
  "retry_get flaky_env ''http://x/'' empty_world
     = (Inr (Some \<lparr>status_code = 200, resp_text = ''ok''\<rparr>),
        empty_world\<lparr>trace := trace empty_world @ replicate (Suc 2) (Get ''http://x/'')\<rparr>)"
  using retry_get_returns_first_200
    [of 2 flaky_env "''http://x/''" empty_world "\<lparr>status_code = 200, resp_text = ''ok''\<rparr>"]
  by (simp add: attempt_fails_def flaky_env_def quiet_env_def empty_world_def less_Suc_eq
      numeral_2_eq_2)

text \<open>
  A status of the 2xx family other than 200 is not a success: a server that answers 204 is
  asked three times and the fetch fails.
\<close>

theorem retry_get_204_counterexample:
  "retry_get (status_env 204) ''http://x/'' empty_world
     = (Inr None,
        \<lparr>trace = [Get ''http://x/'', Get ''http://x/'', Get ''http://x/''], csv = None,
         torn = False, checkpoint = Absent\<rparr>)"
  unfolding retry_get_def attempts
  by (simp add: status_env_def quiet_env_def empty_world_def Let_def)

subsection \<open>Persisting a page before the checkpoint\<close>

text \<open>
  Claim C2, as amended.  In every page iteration the append of the rows gathered for the
  page is attempted, and is over, before the checkpoint for the page's next cursor is saved:
  after the GETs that gather the rows \<open>rows\<close>, the iteration adds to the trace the append
  of exactly these rows and then the save, in this order (and no save when \<open>urljoin\<close>
  raises on the next link).  In the trace of every run, however it ends, every save of a
  checkpoint comes directly after the append of the same page.  When the append goes through,
  on a file that ended with a whole row, all the rows gathered for the page are in the file by
  then.  When the append fails the checkpoint is saved all the same, over a file that lacks
  rows of the page.
\<close>

theorem checkpoint_after_append:
  "(scrape_articles E next_url (product_articles (listing_of E (resp_text resp))) w = (rows, w1)
      \<longrightarrow> process_page E page_count next_url resp w = (result, w')
      \<longrightarrow> (\<exists>gets. list_all is_get gets \<and> trace w1 = trace w @ gets)
         \<and> trace w' = trace w1
              @ Append page_count (map (cells_of E) rows) (append_fault E page_count)
                # (case result of
                     Inl e \<Rightarrow> []
                   | Inr cursor \<Rightarrow> [Save page_count cursor (save_fault E page_count)])
         \<and> (\<not> torn w \<longrightarrow>
               csv w' = store_after (append_fault E page_count) (csv w) (map (cells_of E) rows))
         \<and> (\<forall>cursor. result = Inr cursor \<longrightarrow> save_fault E page_count = Saved \<longrightarrow>
               checkpoint w' = Object [(''next_url'', cursor_value cursor)]))
   \<and> (\<exists>evs. trace (snd (scrape E fuel w0)) = trace w0 @ evs \<and> saves_follow_appends evs)"
proof (intro conjI impI allI)
  assume items: "scrape_articles E next_url (product_articles (listing_of E (resp_text resp))) w
      = (rows, w1)"
    and page: "process_page E page_count next_url resp w = (result, w')"
  show "\<exists>gets. list_all is_get gets \<and> trace w1 = trace w @ gets"
    using scrape_articles_frame [OF items] by blast
  show "trace w' = trace w1
              @ Append page_count (map (cells_of E) rows) (append_fault E page_count)
                # (case result of
                     Inl e \<Rightarrow> []
                   | Inr cursor \<Rightarrow> [Save page_count cursor (save_fault E page_count)])"
    using items page by (rule process_page_events(1))
  show "csv w' = store_after (append_fault E page_count) (csv w) (map (cells_of E) rows)"
    if "\<not> torn w"
    using items page that by (rule process_page_events(2))
  show "checkpoint w' = Object [(''next_url'', cursor_value cursor)]"
    if "result = Inr cursor" "save_fault E page_count = Saved" for cursor
    using items page that by (rule process_page_events(3))
next
  show "\<exists>evs. trace (snd (scrape E fuel w0)) = trace w0 @ evs \<and> saves_follow_appends evs"
    using scrape_run [of E fuel w0] by blast
qed

text \<open>The only page of the shop, appended and then checkpointed, and the run it is part of.\<close>

theorem checkpoint_after_append_witness:
  "scrape_articles shop_env BASE_URL
       (product_articles (listing_of shop_env (resp_text \<lparr>status_code = 200, resp_text = ''page''\<rparr>)))
       listed_world
     = ([\<lparr>title = ''A Light in the Attic'', price = 5177 / 100, rating = 3,
           number_of_reviews = 0, product_page_url = attic_url,
           scraped_at = ''2024-01-01T00:00:00Z''\<rparr>],
        listed_world\<lparr>trace := [Get BASE_URL, Get attic_url]\<rparr>)
   \<and> process_page shop_env 1 BASE_URL \<lparr>status_code = 200, resp_text = ''page''\<rparr> listed_world
     = (Inr None, crawled_world)
   \<and> torn listed_world = False
   \<and> save_fault shop_env 1 = Saved
   \<and> trace crawled_world
     = [Get BASE_URL, Get attic_url] @ [Append 1 [attic_line] Appended, Save 1 None Saved]
   \<and> csv crawled_world = Some ([scrape_fieldnames] @ [attic_line])
   \<and> checkpoint crawled_world = Object [(''next_url'', PNone)]
   \<and> scrape shop_env 1 empty_world = (Finished, crawled_world)
   \<and> (\<exists>evs. trace (snd (scrape shop_env 1 empty_world)) = trace empty_world @ evs
          \<and> saves_follow_appends evs)"
proof -
  let ?resp = "\<lparr>status_code = 200, resp_text = ''page''\<rparr>"
  let ?row = "\<lparr>title = ''A Light in the Attic'', price = 5177 / 100, rating = 3,
           number_of_reviews = 0, product_page_url = attic_url,
           scraped_at = ''2024-01-01T00:00:00Z''\<rparr>"
  let ?w1 = "listed_world\<lparr>trace := [Get BASE_URL, Get attic_url]\<rparr>"
  have items: "scrape_articles shop_env BASE_URL
       (product_articles (listing_of shop_env (resp_text ?resp))) listed_world = ([?row], ?w1)"
    by code_simp
  have page: "process_page shop_env 1 BASE_URL ?resp listed_world = (Inr None, crawled_world)"
    by code_simp
  have whole: "\<not> torn listed_world"
    by (simp add: listed_world_def)
  have saved: "save_fault shop_env 1 = Saved"
    by code_simp
  have run: "scrape shop_env 1 empty_world = (Finished, crawled_world)"
    by code_simp
  have line: "cells_of shop_env ?row = attic_line"
    by code_simp
  have fault: "append_fault shop_env 1 = Appended"
    by code_simp
  have before: "csv listed_world = Some [scrape_fieldnames]" "trace ?w1 = [Get BASE_URL, Get attic_url]"
    by (simp_all add: listed_world_def)
  note inst = checkpoint_after_append [of shop_env BASE_URL ?resp listed_world "[?row]" ?w1
      1 "Inr None" crawled_world 1 empty_world]
  from inst items page
  have events: "trace crawled_world = trace ?w1
              @ Append 1 (map (cells_of shop_env) [?row]) (append_fault shop_env 1)
                # (case (Inr None :: error + string option) of
                     Inl e \<Rightarrow> []
                   | Inr cursor \<Rightarrow> [Save 1 cursor (save_fault shop_env 1)])"
    and store: "\<not> torn listed_world \<longrightarrow>
        csv crawled_world
          = store_after (append_fault shop_env 1) (csv listed_world) (map (cells_of shop_env) [?row])"
    and cursor: "\<forall>cursor. (Inr None :: error + string option) = Inr cursor \<longrightarrow>
        save_fault shop_env 1 = Saved \<longrightarrow>
        checkpoint crawled_world = Object [(''next_url'', cursor_value cursor)]"
    and order: "\<exists>evs. trace (snd (scrape shop_env 1 empty_world)) = trace empty_world @ evs
          \<and> saves_follow_appends evs"
    by blast+
  have "trace crawled_world
     = [Get BASE_URL, Get attic_url] @ [Append 1 [attic_line] Appended, Save 1 None Saved]"
    using events by (simp add: line fault saved before del: One_nat_def)
  moreover have "csv crawled_world = Some ([scrape_fieldnames] @ [attic_line])"
    using store whole by (simp add: line fault before store_after_def del: One_nat_def)
  moreover have "checkpoint crawled_world = Object [(''next_url'', PNone)]"
    using cursor saved by (simp add: cursor_value_def del: One_nat_def)
  moreover have "torn listed_world = False"
    using whole by simp
  ultimately show ?thesis
    using items page saved run order by (intro conjI)
qed

text \<open>
  The output file cannot be opened: the row of page 1 is not in the file, and the checkpoint
  points to page 2.
\<close>

theorem checkpoint_without_rows_counterexample:
  "process_page full_disk_env 1 BASE_URL \<lparr>status_code = 200, resp_text = ''page''\<rparr>
      listed_world
     = (Inr (Some ''http://books.toscrape.com/catalogue/page-2.html''),
        \<lparr>trace = [Get BASE_URL, Get attic_url, Append 1 [attic_line] Append_open_failed,
                  Save 1 (Some ''http://books.toscrape.com/catalogue/page-2.html'') Saved],
         csv = Some [scrape_fieldnames],
         torn = False,
         checkpoint =
           Object [(''next_url'', PStr ''http://books.toscrape.com/catalogue/page-2.html'')]\<rparr>)"
  by code_simp

subsection \<open>An item whose detail page cannot be fetched\<close>

text \<open>
  Claim C6.  Take a listing page whose items are \<open>before\<close>, then \<open>art\<close>, then
  \<open>after\<close>, and let the fetch of the detail page of \<open>art\<close> fail for good
  (\<open>retry_get\<close> returns \<open>None\<close>).  The rows gathered for the page are those of the
  items before, a row for \<open>art\<close>, and those of the items after: the failure does not end
  the page.  The row of \<open>art\<close> has \<open>number_of_reviews = -1\<close>, and its title, price,
  rating and URL come from the listing page.  It is this batch that the page hands to the
  append.
\<close>

theorem failed_detail_keeps_item:
  assumes "scrape_articles E next_url before w0 = (rows0, w)"
    and "h3_a art = Some a"
    and "urljoin E next_url (a_href a) = Inr product_url"
    and "retry_get E product_url w = (Inr None, w')"
    and "scrape_articles E next_url after w' = (rows1, w1)"
  shows "\<exists>row. scrape_articles E next_url (before @ art # after) w0 = (rows0 @ row # rows1, w1)
           \<and> number_of_reviews row = - 1
           \<and> title row = (case a_title a of
                             None \<Rightarrow> a_text a
                           | Some t \<Rightarrow> if t \<noteq> [] then t else a_text a)
           \<and> (case price_color art of
                 None \<Rightarrow> price row = 0
               | Some price_text \<Rightarrow> parse_price price_text = Inr (price row))
           \<and> rating row = (case star_rating art of
                              None \<Rightarrow> 0
                            | Some classes \<Rightarrow> parse_rating (ucd E) classes)
           \<and> product_page_url row = product_url
           \<and> (product_articles (listing_of E (resp_text resp)) = before @ art # after \<longrightarrow>
                (\<exists>result w2. process_page E page_count next_url resp w0 = (result, w2)
                   \<and> trace w2 = trace w1
                        @ Append page_count (map (cells_of E) (rows0 @ row # rows1))
                            (append_fault E page_count)
                          # (case result of
                               Inl e \<Rightarrow> []
                             | Inr cursor \<Rightarrow> [Save page_count cursor (save_fault E page_count)])))"
proof -
  obtain row where row: "scrape_article E next_url art w = (Some row, w')"
      "number_of_reviews row = - 1"
      "title row = (case a_title a of
                             None \<Rightarrow> a_text a
                           | Some t \<Rightarrow> if t \<noteq> [] then t else a_text a)"
      "(case price_color art of
                 None \<Rightarrow> price row = 0
               | Some price_text \<Rightarrow> parse_price price_text = Inr (price row))"
      "rating row = (case star_rating art of
                              None \<Rightarrow> 0
                            | Some classes \<Rightarrow> parse_rating (ucd E) classes)"
      "product_page_url row = product_url"
    using scrape_article_degraded [OF assms(2,3,4)] by blast
  have all: "scrape_articles E next_url (before @ art # after) w0 = (rows0 @ row # rows1, w1)"
    using assms(1,5) row(1) by (simp add: scrape_articles_append)
  have "\<exists>result w2. process_page E page_count next_url resp w0 = (result, w2)
                   \<and> trace w2 = trace w1
                        @ Append page_count (map (cells_of E) (rows0 @ row # rows1))
                            (append_fault E page_count)
                          # (case result of
                               Inl e \<Rightarrow> []
                             | Inr cursor \<Rightarrow> [Save page_count cursor (save_fault E page_count)])"
    if items: "product_articles (listing_of E (resp_text resp)) = before @ art # after"
  proof -
    obtain result w2 where page: "process_page E page_count next_url resp w0 = (result, w2)"
      by (cases "process_page E page_count next_url resp w0")
    have "scrape_articles E next_url (product_articles (listing_of E (resp_text resp))) w0
        = (rows0 @ row # rows1, w1)"
      using all items by simp
    then show ?thesis
      using process_page_events(1) [OF _ page] page by blast
  qed
  then show ?thesis using all row(2-6) by blast
qed

text \<open>The book of the shop, twice on a page, with no detail page to be had.\<close>

theorem failed_detail_keeps_item_witness:
  "scrape_articles twin_env BASE_URL [] listed_world = ([], listed_world)
   \<and> h3_a attic = Some \<lparr>a_title = Some ''A Light in the Attic'',
                           a_text = ''A Light in the ...'',
                           a_href = Some ''a-light-in-the-attic_1000/index.html''\<rparr>
   \<and> urljoin twin_env BASE_URL (Some ''a-light-in-the-attic_1000/index.html'') = Inr attic_url
   \<and> retry_get twin_env attic_url listed_world
       = (Inr None, listed_world\<lparr>trace := trace listed_world @ replicate 3 (Get attic_url)\<rparr>)
   \<and> product_articles (listing_of twin_env (resp_text \<lparr>status_code = 200, resp_text = ''page''\<rparr>))
       = [] @ attic # [attic]
   \<and> (\<exists>row. scrape_articles twin_env BASE_URL ([] @ attic # [attic]) listed_world
               = ([] @ row # [row],
                  listed_world\<lparr>trace := trace listed_world @ replicate 6 (Get attic_url)\<rparr>)
            \<and> number_of_reviews row = - 1
            \<and> title row = ''A Light in the Attic''
            \<and> price row = 5177 / 100
            \<and> rating row = 3
            \<and> product_page_url row = attic_url
            \<and> (\<exists>result w2.
                  process_page twin_env 1 BASE_URL \<lparr>status_code = 200, resp_text = ''page''\<rparr>
                    listed_world = (result, w2)
                \<and> trace w2 = (trace listed_world @ replicate 6 (Get attic_url))
                     @ Append 1 (map (cells_of twin_env) ([] @ row # [row])) Appended
                       # (case result of
                            Inl e \<Rightarrow> []
                          | Inr cursor \<Rightarrow> [Save 1 cursor Saved])))"
proof -
  let ?a = "\<lparr>a_title = Some ''A Light in the Attic'', a_text = ''A Light in the ...'',
             a_href = Some ''a-light-in-the-attic_1000/index.html''\<rparr>"
  let ?resp = "\<lparr>status_code = 200, resp_text = ''page''\<rparr>"
  let ?w1 = "listed_world\<lparr>trace := trace listed_world @ replicate 3 (Get attic_url)\<rparr>"
  let ?w2 = "listed_world\<lparr>trace := trace listed_world @ replicate 6 (Get attic_url)\<rparr>"
  let ?row = "\<lparr>title = ''A Light in the Attic'', price = 5177 / 100, rating = 3,
               number_of_reviews = - 1, product_page_url = attic_url,
               scraped_at = ''2024-01-01T00:00:00Z''\<rparr>"
  have before: "scrape_articles twin_env BASE_URL [] listed_world = ([], listed_world)"
    by simp
  have art: "h3_a attic = Some ?a"
    by (simp add: attic_def)
  have url: "urljoin twin_env BASE_URL (Some ''a-light-in-the-attic_1000/index.html'')
      = Inr attic_url"
    by code_simp
  then have url': "urljoin twin_env BASE_URL (a_href ?a) = Inr attic_url"
    by simp
  have fetch: "retry_get twin_env attic_url listed_world = (Inr None, ?w1)"
    by code_simp
  have after: "scrape_articles twin_env BASE_URL [attic] ?w1 = ([?row], ?w2)"
    by code_simp
  have items: "product_articles (listing_of twin_env (resp_text ?resp)) = [] @ attic # [attic]"
    by code_simp
  have price: "parse_price (CHR 0xA3 # ''51.77'') = Inr (5177 / 100)"
    by code_simp
  have rating: "parse_rating (ucd twin_env) [ascii ''star-rating'', ascii ''Three''] = 3"
    by code_simp
  have faults: "append_fault twin_env 1 = Appended" "save_fault twin_env 1 = Saved"
    by code_simp+
  have tr: "trace ?w2 = trace listed_world @ replicate 6 (Get attic_url)"
    by simp
  from failed_detail_keeps_item [OF before art url' fetch after, of ?resp 1]
  obtain row where all: "scrape_articles twin_env BASE_URL ([] @ attic # [attic]) listed_world
               = ([] @ row # [?row], ?w2)"
    and reviews: "number_of_reviews row = - 1"
    and name: "title row = ''A Light in the Attic''"
    and cost: "parse_price (CHR 0xA3 # ''51.77'') = Inr (price row)"
    and stars: "rating row = parse_rating (ucd twin_env) [ascii ''star-rating'', ascii ''Three'']"
    and link: "product_page_url row = attic_url"
    and page: "product_articles (listing_of twin_env (resp_text ?resp)) = [] @ attic # [attic]
        \<longrightarrow> (\<exists>result w2. process_page twin_env 1 BASE_URL ?resp listed_world = (result, w2)
                   \<and> trace w2 = trace ?w2
                        @ Append 1 (map (cells_of twin_env) ([] @ row # [?row]))
                            (append_fault twin_env 1)
                          # (case result of
                               Inl e \<Rightarrow> []
                             | Inr cursor \<Rightarrow> [Save 1 cursor (save_fault twin_env 1)]))"
    by (auto simp: attic_def)
  have "Inr (price row) = (Inr (5177 / 100) :: error + rat)"
    using cost price by (rule trans [OF sym])
  then have cost': "price row = 5177 / 100" by (simp only: sum.inject)
  have stars': "rating row = 3" using stars rating by (rule trans)
  have "row = ?row"
  proof -
    have "scrape_articles twin_env BASE_URL ([] @ attic # [attic]) listed_world
        = ([] @ ?row # [?row], ?w2)"
      by code_simp
    then show ?thesis using all by simp
  qed
  then have all': "scrape_articles twin_env BASE_URL ([] @ attic # [attic]) listed_world
               = ([] @ row # [row], ?w2)"
    and same: "[] @ row # [?row] = [] @ row # [row]"
    using all by simp_all
  have page': "\<exists>result w2.
                  process_page twin_env 1 BASE_URL ?resp listed_world = (result, w2)
                \<and> trace w2 = (trace listed_world @ replicate 6 (Get attic_url))
                     @ Append 1 (map (cells_of twin_env) ([] @ row # [row])) Appended
                       # (case result of
                            Inl e \<Rightarrow> []
                          | Inr cursor \<Rightarrow> [Save 1 cursor Saved])"
    using page items unfolding faults tr same by blast
  show ?thesis
    using before art url fetch items all' reviews name cost' stars' link page' by blast
qed

subsection \<open>Where a run starts\<close>

text \<open>
  Claim C10.  A checkpoint file that is missing, unreadable or not JSON loads as the empty
  record, the exception being caught inside \<open>load_checkpoint\<close>.  Whenever the file carries
  no cursor (one of these three states, or a \<open>next_url\<close> that is missing, \<open>null\<close> or
  empty) the start cursor is the root listing URL, and the first request of the run is a GET
  of that URL.
\<close>

theorem load_checkpoint_restarts_at_root:
  "load_checkpoint Absent = [] \<and> load_checkpoint Unreadable = []
   \<and> load_checkpoint Invalid_JSON = []
   \<and> (starts_afresh c \<longrightarrow> start_url (load_checkpoint c) = BASE_URL)
   \<and> (starts_afresh (checkpoint w) \<longrightarrow>
        (\<exists>rest. trace (snd (scrape E (Suc fuel) w)) = trace w @ Get BASE_URL # rest))"
  using scrape_first_get [of E fuel w] start_url_afresh [of c]
    start_url_afresh [of "checkpoint w"]
  by (auto simp: load_checkpoint_def read_json_def)

text \<open>A first run over the shop, with no checkpoint file.\<close>

theorem load_checkpoint_restarts_at_root_witness:
  "starts_afresh Invalid_JSON \<and> start_url (load_checkpoint Invalid_JSON) = BASE_URL
   \<and> starts_afresh (Object [(''next_url'', PStr [])])
   \<and> start_url (load_checkpoint (Object [(''next_url'', PStr [])])) = BASE_URL
   \<and> starts_afresh (checkpoint empty_world)
   \<and> scrape shop_env (Suc 0) empty_world = (Finished, crawled_world)
   \<and> (\<exists>rest. trace (snd (scrape shop_env (Suc 0) empty_world))
               = trace empty_world @ Get BASE_URL # rest)"
proof -
  have c1: "starts_afresh Invalid_JSON" and c2: "starts_afresh (Object [(''next_url'', PStr [])])"
    and c3: "starts_afresh (checkpoint empty_world)"
    by (simp_all add: starts_afresh_def empty_world_def)
  have run: "scrape shop_env (Suc 0) empty_world = (Finished, crawled_world)"
    by code_simp
  show ?thesis
    using load_checkpoint_restarts_at_root [of Invalid_JSON empty_world shop_env 0]
      load_checkpoint_restarts_at_root [of "Object [(''next_url'', PStr [])]"]
      c1 c2 c3 run
    by blast
qed

subsection \<open>Running again after a finished crawl\<close>




end
